theory Spec2Isabelle
  imports Main "HOL-Library.Sublist" "HOL-Library.Multiset"
begin

section \<open>Python string operations used by the core\<close>

text \<open>
  Source text is a \<open>string\<close> (a list of characters, read as code points below 256).
  Each operation below is the Python \<open>str\<close> method of the same name, restricted to the
  way the repository calls it. Every separator and pattern the source passes is a
  non-empty literal; Python raises \<open>ValueError\<close> for an empty separator, which no
  call site can trigger, so the scanners below simply never match an empty pattern.
\<close>

definition py_isspace :: "char \<Rightarrow> bool" where
  "py_isspace c = (of_char c \<in> set [9, 10, 11, 12, 13, 28, 29, 30, 31, 32, 133, 160 :: nat])"

definition py_lstrip :: "string \<Rightarrow> string" where
  "py_lstrip s = dropWhile py_isspace s"

definition py_rstrip :: "string \<Rightarrow> string" where
  "py_rstrip s = rev (dropWhile py_isspace (rev s))"

definition py_strip :: "string \<Rightarrow> string" where
  "py_strip s = py_rstrip (py_lstrip s)"

definition startswith :: "string \<Rightarrow> string \<Rightarrow> bool" where
  "startswith s p = prefix p s"

definition endswith :: "string \<Rightarrow> string \<Rightarrow> bool" where
  "endswith s p = suffix p s"

text \<open>\<open>s.split(sep)\<close>: leftmost, non-overlapping occurrences of \<open>sep\<close> cut the text;
  the accumulator holds the current piece reversed.\<close>

function split_from :: "string \<Rightarrow> string \<Rightarrow> string \<Rightarrow> string list" where
  "split_from sep acc [] = [rev acc]"
| "split_from sep acc (x # xs) =
     (if sep \<noteq> [] \<and> prefix sep (x # xs)
      then rev acc # split_from sep [] (drop (length sep - 1) xs)
      else split_from sep (x # acc) xs)"
  by pat_completeness auto
termination
  by (relation "measure (\<lambda>(sep, acc, s). length s)") auto

definition py_split :: "string \<Rightarrow> string \<Rightarrow> string list" where
  "py_split s sep = split_from sep [] s"

text \<open>\<open>s.replace(old, new)\<close>, leftmost and non-overlapping.\<close>

function py_replace :: "string \<Rightarrow> string \<Rightarrow> string \<Rightarrow> string" where
  "py_replace [] old new = []"
| "py_replace (x # xs) old new =
     (if old \<noteq> [] \<and> prefix old (x # xs)
      then new @ py_replace (drop (length old - 1) xs) old new
      else x # py_replace xs old new)"
  by pat_completeness auto
termination
  by (relation "measure (\<lambda>(s, old, new). length s)") auto

text \<open>\<open>s.count(sub)\<close>: the number of non-overlapping occurrences.\<close>

function py_count :: "string \<Rightarrow> string \<Rightarrow> nat" where
  "py_count [] sub = 0"
| "py_count (x # xs) sub =
     (if sub \<noteq> [] \<and> prefix sub (x # xs)
      then Suc (py_count (drop (length sub - 1) xs) sub)
      else py_count xs sub)"
  by pat_completeness auto
termination
  by (relation "measure (\<lambda>(s, sub). length s)") auto

text \<open>\<open>sub in s\<close>.\<close>

fun py_in :: "string \<Rightarrow> string \<Rightarrow> bool" where
  "py_in sub [] = (sub = [])"
| "py_in sub (x # xs) = (prefix sub (x # xs) \<or> py_in sub xs)"

text \<open>\<open>sep.join(xs)\<close>.\<close>

fun py_join :: "string \<Rightarrow> string list \<Rightarrow> string" where
  "py_join sep [] = []"
| "py_join sep [x] = x"
| "py_join sep (x # y # ys) = x @ sep @ py_join sep (y # ys)"

text \<open>Truthiness of an optional string: \<open>None\<close> and the empty string are false.\<close>

fun truthy :: "string option \<Rightarrow> bool" where
  "truthy None = False"
| "truthy (Some s) = (s \<noteq> [])"

text \<open>\<open>str(x)\<close> of an optional string inside an f-string: \<open>None\<close> prints as \<open>None\<close>.\<close>

fun py_str :: "string option \<Rightarrow> string" where
  "py_str None = ''None''"
| "py_str (Some s) = s"

section \<open>Data model\<close>

text \<open>\<open>FunctionInfo\<close> of \<open>core/parser.py\<close>; an argument is the dict
  \<open>{"name": ..., "type": ...}\<close>.\<close>

record arg_info =
  arg_name :: string
  arg_type :: "string option"

record function_info =
  name :: string
  args :: "arg_info list"
  returns :: "string option"
  lineno :: nat
  existing_docstring :: "string option"
  body :: string

text \<open>The result dict of the generator. The key \<open>status\<close> is not present in every
  dict the generator builds; \<open>None\<close> in the field \<open>status\<close> means the key is absent.
  \<open>docstring\<close> and \<open>fixed_code\<close> hold a string or Python's \<open>None\<close>.\<close>

datatype gen_status = Existing | Generated | Error

record gen_result =
  docstring :: "string option"
  fixed_code :: "string option"
  errors :: "string list"
  status :: "gen_status option"

section \<open>Response interpreter (\<open>core/generator.py\<close>)\<close>

definition clean_docstring :: "string \<Rightarrow> string" where
  "clean_docstring docstring_text =
     (let t1 = py_replace docstring_text ''```python'' '''';
          t2 = py_replace t1 ''```'' '''';
          t3 = py_strip t2;
          t4 = (if startswith t3 ''\"\"\"'' then drop 3 t3 else t3);
          t5 = (if endswith t4 ''\"\"\"'' then take (length t4 - 3) t4 else t4);
          t6 = (if startswith t5 [CHR 39, CHR 39, CHR 39] then drop 3 t5 else t5);
          t7 = (if endswith t6 [CHR 39, CHR 39, CHR 39] then take (length t6 - 3) t6 else t6)
      in py_strip t7)"

text \<open>An exception carries its message, \<open>str(e)\<close>. Indexing a list out of range
  raises; the \<open>try\<close> block of \<open>_parse_response\<close> is modelled with the checked
  indexing, and its \<open>except\<close> handler is the \<open>Inl\<close> branch.\<close>

datatype exn = Exception string

fun exn_str :: "exn \<Rightarrow> string" where
  "exn_str (Exception m) = m"

definition py_index :: "'a list \<Rightarrow> nat \<Rightarrow> exn + 'a" where
  "py_index xs i =
     (if i < length xs then Inr (xs ! i) else Inl (Exception ''list index out of range''))"

fun bind_exn :: "exn + 'a \<Rightarrow> ('a \<Rightarrow> exn + 'b) \<Rightarrow> exn + 'b" where
  "bind_exn (Inl e) f = Inl e"
| "bind_exn (Inr x) f = f x"

definition empty_result :: gen_result where
  "empty_result = \<lparr>docstring = Some '''', fixed_code = None, errors = [], status = None\<rparr>"

definition parse_try :: "string \<Rightarrow> exn + gen_result" where
  "parse_try response_text =
     (let sections = py_split response_text ''FIXED_CODE:'' in
      if length sections \<ge> 2 then
        bind_exn (py_index sections 0) (\<lambda>s0.
        let docstring_part = py_strip (py_replace s0 ''DOCSTRING:'' '''') in
        bind_exn (py_index sections 1) (\<lambda>remaining.
        let errors_split = py_split remaining ''ERRORS_FOUND:'' in
        if length errors_split \<ge> 2 then
          bind_exn (py_index errors_split 0) (\<lambda>e0.
          bind_exn (py_index errors_split 1) (\<lambda>e1.
          let fixed = py_strip e0;
              errors_found = py_strip e1;
              r1 = empty_result\<lparr>docstring := Some (clean_docstring docstring_part)\<rparr>;
              r2 = (if fixed \<noteq> [] \<and> \<not> py_in ''No fixes needed'' fixed
                    then r1\<lparr>fixed_code := Some fixed\<rparr> else r1);
              r3 = (if errors_found \<noteq> [] \<and> \<not> py_in ''None'' errors_found
                    then r2\<lparr>errors := [errors_found]\<rparr> else r2)
          in Inr r3))
        else Inr (empty_result\<lparr>docstring := Some (clean_docstring docstring_part)\<rparr>)))
      else Inr (empty_result\<lparr>docstring := Some (clean_docstring (py_strip response_text))\<rparr>))"

text \<open>\<open>_parse_response\<close>: the handler runs only when the \<open>try\<close> block raised, which
  can happen only before the block has written to \<open>result\<close>.\<close>

definition parse_response :: "string \<Rightarrow> exn + gen_result" where
  "parse_response response_text =
     (case parse_try response_text of
        Inr r \<Rightarrow> Inr r
      | Inl e \<Rightarrow> Inr (empty_result\<lparr>docstring := Some (clean_docstring (py_strip response_text))\<rparr>))"

section \<open>Prompt builder (\<open>core/generator.py\<close>)\<close>

text \<open>The remote service: the completion text, or the exception raised, for a prompt,
  given the prompts sent so far (a stateful service is a function of its history).
  The world is the list of prompts sent over the network, oldest first.\<close>

type_synonym world = "string list"

type_synonym service = "string list \<Rightarrow> string \<Rightarrow> exn + string"

record generator =
  api_key :: "string option"
  model :: "service option"

text \<open>\<open>__init__\<close>: \<open>api_key or GEMINI_API_KEY\<close>; the model exists iff the key is truthy.
  \<open>GEMINI_API_KEY\<close> is read from the process environment and is a parameter here.\<close>

definition DocstringGenerator :: "string option \<Rightarrow> string option \<Rightarrow> service \<Rightarrow> generator" where
  "DocstringGenerator key GEMINI_API_KEY svc =
     (let k = (if truthy key then key else GEMINI_API_KEY)
      in \<lparr>api_key = k, model = (if truthy k then Some svc else None)\<rparr>)"

definition args_str :: "arg_info list \<Rightarrow> string" where
  "args_str as = py_join '', '' (map (\<lambda>a. arg_name a @ '': '' @ py_str (arg_type a)) as)"

text \<open>\<open>_create_prompt\<close> is a method: it receives the generator as \<open>self\<close>.\<close>

definition create_prompt :: "generator \<Rightarrow> function_info \<Rightarrow> string \<Rightarrow> string" where
  "create_prompt self function_info style =
     py_join ''\<newline>''
       [''Generate a '' @ style @ '' style docstring for this Python function.'',
        '''',
        ''Function Name: '' @ name function_info,
        ''Arguments: '' @ args_str (args function_info),
        ''Return Type: '' @ py_str (returns function_info),
        '''',
        ''Function Code:'',
        body function_info,
        '''',
        ''Requirements:'',
        ''1. Follow '' @ style @ '' style docstring format strictly'',
        ''2. Include purpose of the function'',
        ''3. Describe all parameters with their types'',
        ''4. Describe return type and value'',
        ''5. Add inline comments for complex logic if needed'',
        ''6. Follow PEP 257 conventions'',
        ''7. First line should be a brief summary ending with a period'',
        ''8. If multi-line, leave a blank line after the summary'',
        '''',
        ''Also, if you find any obvious errors in the code (syntax, logic), provide a fixed version.'',
        '''',
        ''Respond in this format:'',
        ''DOCSTRING:'',
        ''[Your generated docstring here]'',
        '''',
        ''FIXED_CODE:'',
        ''[Fixed code if any errors found, otherwise write \"No fixes needed\"]'',
        '''',
        ''ERRORS_FOUND:'',
        ''[List any errors you found, otherwise write \"None\"]'',
        '''']"

section \<open>Generation orchestrator (\<open>core/generator.py\<close>)\<close>

definition no_key_result :: gen_result where
  "no_key_result =
     \<lparr>docstring = Some ''Error: No API key configured'', fixed_code = None,
      errors = [''API key not set''], status = None\<rparr>"

definition error_result :: "exn \<Rightarrow> gen_result" where
  "error_result e =
     \<lparr>docstring = Some (''Error generating docstring: '' @ exn_str e), fixed_code = None,
      errors = [exn_str e], status = Some Error\<rparr>"

text \<open>\<open>generate_docstring\<close> returns the result dict and the world after the call.
  The prompt is appended to the world exactly where the source calls
  \<open>self.model.generate_content\<close>.\<close>

definition generate_docstring ::
  "generator \<Rightarrow> function_info \<Rightarrow> string \<Rightarrow> world \<Rightarrow> gen_result \<times> world" where
  "generate_docstring self function_info style w =
     (case model self of
        None \<Rightarrow> (no_key_result, w)
      | Some svc \<Rightarrow>
          if truthy (existing_docstring function_info)
          then (\<lparr>docstring = existing_docstring function_info, fixed_code = None,
                 errors = [], status = Some Existing\<rparr>, w)
          else
            let prompt = create_prompt self function_info style
            in (case bind_exn (svc w prompt) parse_response of
                  Inr result \<Rightarrow> (result\<lparr>status := Some Generated\<rparr>, w @ [prompt])
                | Inl e \<Rightarrow> (error_result e, w @ [prompt])))"

text \<open>The result mapping is a Python dict: insertion-ordered, and an assignment to a
  key already present replaces the value in place.\<close>

fun dict_set :: "('k \<times> 'v) list \<Rightarrow> 'k \<Rightarrow> 'v \<Rightarrow> ('k \<times> 'v) list" where
  "dict_set [] k v = [(k, v)]"
| "dict_set ((k', v') # d) k v = (if k' = k then (k, v) # d else (k', v') # dict_set d k v)"

text \<open>The state of the loop of \<open>generate_batch\<close>: the dict, the calls made to
  \<open>progress_callback\<close>, and the world.\<close>

record batch_state =
  results :: "(string \<times> gen_result) list"
  progress :: "(nat \<times> nat) list"
  net :: world

fun batch_loop ::
  "generator \<Rightarrow> string \<Rightarrow> bool \<Rightarrow> nat \<Rightarrow> nat \<Rightarrow> function_info list \<Rightarrow> batch_state \<Rightarrow> batch_state" where
  "batch_loop self style cb tot i [] st = st"
| "batch_loop self style cb tot i (func # rest) st =
     (let (result, w') = generate_docstring self func style (net st)
      in batch_loop self style cb tot (i + 1) rest
           \<lparr>results = dict_set (results st) (name func) result,
            progress = (if cb then progress st @ [(i + 1, tot)] else progress st),
            net = w'\<rparr>)"

text \<open>\<open>cb\<close> tells whether a \<open>progress_callback\<close> was supplied; the callback is the
  caller's and is taken to return normally.\<close>

definition generate_batch ::
  "generator \<Rightarrow> function_info list \<Rightarrow> string \<Rightarrow> bool \<Rightarrow> world \<Rightarrow> batch_state" where
  "generate_batch self functions style cb w =
     batch_loop self style cb (length functions) 0 functions
       \<lparr>results = [], progress = [], net = w\<rparr>"

section \<open>Style validator (\<open>core/validator.py\<close>, \<open>utils/helpers.py\<close>)\<close>

text \<open>A pydocstyle issue as the validator reads it; \<open>issue_definition\<close> is
  \<open>str(issue.definition)\<close>, or \<open>None\<close> when the attribute is falsy. A finding is the
  \<open>issue_dict\<close> built from it.\<close>

record issue =
  issue_code :: string
  issue_message :: string
  issue_line :: nat
  issue_definition :: "string option"

record finding =
  code :: string
  message :: string
  line :: nat
  defn :: string

definition issue_dict :: "issue \<Rightarrow> finding" where
  "issue_dict i =
     \<lparr>code = issue_code i, message = issue_message i, line = issue_line i,
      defn = (case issue_definition i of Some d \<Rightarrow> d | None \<Rightarrow> ''Unknown'')\<rparr>"

text \<open>The list literal of lines 56 and 166.\<close>

definition missing_doc_codes :: "string list" where
  "missing_doc_codes = [''D100'', ''D101'', ''D102'', ''D103'']"

text \<open>The categorising loop of \<open>validate_code\<close>, with the two lists it appends to.\<close>

fun categorize :: "issue list \<Rightarrow> finding list \<Rightarrow> finding list \<Rightarrow> finding list \<times> finding list" where
  "categorize [] errs warns = (errs, warns)"
| "categorize (i # rest) errs warns =
     (if issue_code i \<in> set missing_doc_codes
      then categorize rest (errs @ [issue_dict i]) warns
      else categorize rest errs (warns @ [issue_dict i]))"

text \<open>The severity \<open>get_file_status\<close> writes for a code (line 166).\<close>

definition status_severity :: "string \<Rightarrow> string" where
  "status_severity c = (if c \<in> set missing_doc_codes then ''error'' else ''warning'')"

text \<open>\<open>get_severity_color\<close> of \<open>utils/helpers.py\<close>.\<close>

definition get_severity_color :: "string \<Rightarrow> string" where
  "get_severity_color c =
     (if startswith c ''D1'' then ''error''
      else if startswith c ''D2'' then ''warning''
      else if startswith c ''D3'' then ''warning''
      else if startswith c ''D4'' then ''error''
      else ''error'')"

subsection \<open>Splicing generated documentation into the source\<close>

type_synonym docstrings = "(string \<times> gen_result) list"

text \<open>\<open>line.split('def ')[1].split('(')[0].strip()\<close>, with checked indexing.\<close>

definition def_name :: "string \<Rightarrow> exn + string" where
  "def_name ln =
     bind_exn (py_index (py_split ln ''def '') 1) (\<lambda>rest.
     bind_exn (py_index (py_split rest ''('') 0) (\<lambda>n. Inr (py_strip n)))"

text \<open>The lines appended to \<open>result_lines\<close> after \<open>ln\<close> in one iteration of the loop of
  \<open>_insert_docstrings\<close>. The key \<open>docstring\<close> is present in every result dict, so
  \<open>.get('docstring', '')\<close> is the field.\<close>

definition doc_block :: "docstrings \<Rightarrow> string \<Rightarrow> exn + string list" where
  "doc_block ds ln =
     (if startswith (py_strip ln) ''def '' then
        bind_exn (def_name ln) (\<lambda>func_name.
          case map_of ds func_name of
            None \<Rightarrow> Inr []
          | Some r \<Rightarrow>
              (case docstring r of
                 None \<Rightarrow> Inr []
               | Some d \<Rightarrow>
                   if d \<noteq> [] then
                     let indent = length ln - length (py_lstrip ln) + 4;
                         indent_str = replicate indent CHR '' ''
                     in Inr ([indent_str @ ''\"\"\"'']
                             @ map (\<lambda>doc_line. indent_str @ doc_line) (py_split d ''\<newline>'')
                             @ [indent_str @ ''\"\"\"''])
                   else Inr []))
      else Inr [])"

fun insert_loop :: "docstrings \<Rightarrow> string list \<Rightarrow> string list \<Rightarrow> exn + string list" where
  "insert_loop ds [] result_lines = Inr result_lines"
| "insert_loop ds (ln # rest) result_lines =
     bind_exn (doc_block ds ln) (\<lambda>blk. insert_loop ds rest (result_lines @ [ln] @ blk))"

definition insert_docstrings :: "string \<Rightarrow> docstrings \<Rightarrow> exn + string" where
  "insert_docstrings source_code ds =
     bind_exn (insert_loop ds (py_split source_code ''\<newline>'') [])
       (\<lambda>result_lines. Inr (py_join ''\<newline>'' result_lines))"

subsection \<open>Validation and aggregation\<close>

record summary_counts =
  s_compliant :: int
  s_warnings :: nat
  s_errors :: nat

record val_result =
  r_errors :: "finding list"
  r_warnings :: "finding list"
  r_compliant :: int
  r_total_issues :: nat
  r_summary :: summary_counts

text \<open>The validator object's attributes.\<close>

record validator =
  self_errors :: "finding list"
  self_warnings :: "finding list"
  compliant_count :: int

definition format_results :: "validator \<Rightarrow> val_result" where
  "format_results self =
     (let total_issues = length (self_errors self) + length (self_warnings self)
      in \<lparr>r_errors = self_errors self, r_warnings = self_warnings self,
          r_compliant = compliant_count self, r_total_issues = total_issues,
          r_summary = \<lparr>s_compliant = compliant_count self,
                       s_warnings = length (self_warnings self),
                       s_errors = length (self_errors self)\<rparr>\<rparr>)"

text \<open>What \<open>validate_code\<close> does not own: writing the temporary file (\<open>Some e\<close> when the
  write raises) and the rule engine \<open>pydocstyle.check\<close>, a function of the file's text
  that returns the issues or raises.\<close>

record val_env =
  write_temp :: "string \<Rightarrow> exn option"
  check :: "string \<Rightarrow> exn + issue list"

text \<open>The body of the outer \<open>try\<close>. Its first statement rebinds \<open>source_code\<close> to the
  merged source; \<open>generated_docstrings\<close> is \<open>None\<close> or a dict, and an empty dict is
  falsy.\<close>

definition merged_source :: "string \<Rightarrow> docstrings option \<Rightarrow> exn + string" where
  "merged_source source_code generated_docstrings =
     (case generated_docstrings of
        None \<Rightarrow> Inr source_code
      | Some ds \<Rightarrow> if ds \<noteq> [] then insert_docstrings source_code ds else Inr source_code)"

definition validate_try ::
  "validator \<Rightarrow> val_env \<Rightarrow> string \<Rightarrow> docstrings option \<Rightarrow> exn + (val_result \<times> validator)" where
  "validate_try self env source_code generated_docstrings =
     bind_exn (merged_source source_code generated_docstrings) (\<lambda>src.
     case write_temp env src of
       Some e \<Rightarrow> Inl e
     | None \<Rightarrow>
         bind_exn (check env src) (\<lambda>issues.
           let (errs, warns) = categorize issues [] [];
               self1 = self\<lparr>self_errors := errs, self_warnings := warns\<rparr>;
               total_functions = py_count src ''def '';
               self2 = self1\<lparr>compliant_count :=
                         max 0 (int total_functions - int (length errs))\<rparr>
           in Inr (format_results self2, self2)))"

definition failure_result :: "exn \<Rightarrow> val_result" where
  "failure_result e =
     \<lparr>r_errors = [\<lparr>code = ''ERROR'', message = ''Validation error: '' @ exn_str e,
                   line = 0, defn = ''''\<rparr>],
      r_warnings = [], r_compliant = 0, r_total_issues = 1,
      r_summary = \<lparr>s_compliant = 0, s_warnings = 0, s_errors = 1\<rparr>\<rparr>"

text \<open>\<open>validate_code\<close>: the attributes are assigned only after everything that can raise,
  so the handler leaves the validator as it was.\<close>

definition validate_code ::
  "validator \<Rightarrow> val_env \<Rightarrow> string \<Rightarrow> docstrings option \<Rightarrow> val_result \<times> validator" where
  "validate_code self env source_code generated_docstrings =
     (case validate_try self env source_code generated_docstrings of
        Inr rv \<Rightarrow> rv
      | Inl e \<Rightarrow> (failure_result e, self))"

section \<open>Unit extractor (\<open>core/parser.py\<close>)\<close>

text \<open>The syntax tree \<open>ast.parse\<close> returns, as far as the extractor looks at it: each node
  has its class and its child nodes in the order of \<open>ast.iter_child_nodes\<close>. A
  \<open>FunctionDef\<close> carries what \<open>_get_function_info\<close> reads: the name, the arguments
  with their annotations unparsed to text, the return annotation, the line, the result of
  \<open>ast.get_docstring\<close>, and the end line of the last statement of the body
  (\<open>None\<close> for an empty body).\<close>

record funcdef =
  fd_name :: string
  fd_args :: "(string \<times> string option) list"
  fd_returns :: "string option"
  fd_lineno :: nat
  fd_docstring :: "string option"
  fd_body_end :: "nat option"

datatype node_class = FunctionDef funcdef | AsyncFunctionDef funcdef | ClassDef string | Other

datatype ast_node = Node node_class "ast_node list"

fun node_cls :: "ast_node \<Rightarrow> node_class" where
  "node_cls (Node c cs) = c"

fun iter_child_nodes :: "ast_node \<Rightarrow> ast_node list" where
  "iter_child_nodes (Node c cs) = cs"

text \<open>\<open>ast.walk\<close>: a queue, \<open>popleft\<close>, the children appended on the right.\<close>

function walk_queue :: "ast_node list \<Rightarrow> ast_node list" where
  "walk_queue [] = []"
| "walk_queue (n # todo) = n # walk_queue (todo @ iter_child_nodes n)"
  by pat_completeness auto
termination
proof (relation "measure (size_list size)")
  show "wf (measure (size_list (size :: ast_node \<Rightarrow> nat)))" by simp
next
  fix n :: ast_node and todo :: "ast_node list"
  show "(todo @ iter_child_nodes n, n # todo) \<in> measure (size_list size)"
    by (cases n) simp
qed

definition walk :: "ast_node \<Rightarrow> ast_node list" where
  "walk tree = walk_queue [tree]"

definition get_function_body :: "funcdef \<Rightarrow> string \<Rightarrow> string" where
  "get_function_body node source_code =
     (let lines = py_split source_code ''\<newline>'';
          start_line = fd_lineno node - 1;
          end_line = (case fd_body_end node of None \<Rightarrow> start_line + 1 | Some e \<Rightarrow> e)
      in py_join ''\<newline>'' (drop start_line (take end_line lines)))"

definition get_function_info :: "funcdef \<Rightarrow> string \<Rightarrow> function_info" where
  "get_function_info node source_code =
     \<lparr>name = fd_name node,
      args = map (\<lambda>(a, t). \<lparr>arg_name = a, arg_type = t\<rparr>) (fd_args node),
      returns = fd_returns node,
      lineno = fd_lineno node,
      existing_docstring = fd_docstring node,
      body = get_function_body node source_code\<rparr>"

text \<open>\<open>_extract_functions\<close>: the loop over \<open>ast.walk(tree)\<close>, appending to
  \<open>self.functions\<close>; \<open>isinstance(node, ast.FunctionDef)\<close> is false for the other
  classes.\<close>

fun extract_loop :: "ast_node list \<Rightarrow> string \<Rightarrow> function_info list \<Rightarrow> function_info list" where
  "extract_loop [] source_code functions = functions"
| "extract_loop (Node (FunctionDef fd) cs # rest) source_code functions =
     extract_loop rest source_code (functions @ [get_function_info fd source_code])"
| "extract_loop (n # rest) source_code functions = extract_loop rest source_code functions"

definition extract_functions :: "ast_node \<Rightarrow> string \<Rightarrow> function_info list" where
  "extract_functions tree source_code = extract_loop (walk tree) source_code []"

text \<open>\<open>parse_code\<close>, given what \<open>ast.parse\<close> did with the text: the functions and the
  accuracy in percent.\<close>

definition parse_code :: "(string \<Rightarrow> exn + ast_node) \<Rightarrow> string \<Rightarrow> function_info list \<times> nat" where
  "parse_code ast_parse source_code =
     (case ast_parse source_code of
        Inr tree \<Rightarrow> (extract_functions tree source_code, 100)
      | Inl e \<Rightarrow> ([], 0))"

subsection \<open>Reference: the units processed one after the other\<close>

text \<open>The pairs (unit name, result) of the units taken one at a time in input order,
  each call starting in the world the previous one left, and the world after the last.\<close>

fun sequential_results ::
  "generator \<Rightarrow> string \<Rightarrow> function_info list \<Rightarrow> world \<Rightarrow> (string \<times> gen_result) list" where
  "sequential_results self style [] w = []"
| "sequential_results self style (func # rest) w =
     (name func, fst (generate_docstring self func style w))
       # sequential_results self style rest (snd (generate_docstring self func style w))"

fun sequential_net :: "generator \<Rightarrow> string \<Rightarrow> function_info list \<Rightarrow> world \<Rightarrow> world" where
  "sequential_net self style [] w = w"
| "sequential_net self style (func # rest) w =
     sequential_net self style rest (snd (generate_docstring self func style w))"

subsection \<open>Reference: what the splice adds after a line\<close>

text \<open>A line matches when its stripped text starts with \<open>def\<close> and a blank, and the name
  extracted from it is a key of the mapping whose result has a non-empty docstring.\<close>

definition def_match :: "docstrings \<Rightarrow> string \<Rightarrow> bool" where
  "def_match ds ln =
     (startswith (py_strip ln) ''def '' \<and>
      (case def_name ln of
         Inl e \<Rightarrow> False
       | Inr n \<Rightarrow> (case map_of ds n of None \<Rightarrow> False | Some r \<Rightarrow> truthy (docstring r))))"

text \<open>The lines one iteration appends after \<open>ln\<close> (none when the iteration raised).\<close>

definition spliced_lines :: "docstrings \<Rightarrow> string \<Rightarrow> string list" where
  "spliced_lines ds ln = (case doc_block ds ln of Inr blk \<Rightarrow> blk | Inl e \<Rightarrow> [])"

definition indent_str :: "string \<Rightarrow> string" where
  "indent_str ln = replicate (length ln - length (py_lstrip ln) + 4) CHR '' ''"

text \<open>A source with one undocumented function, a mapping for it, and a source with no
  definition line.\<close>

definition example_source :: string where
  "example_source = ''def f(x):\<newline>    return x''"

definition example_docstrings :: docstrings where
  "example_docstrings =
     [(''f'', \<lparr>docstring = Some ''Return x.'', fixed_code = None, errors = [],
              status = Some Generated\<rparr>)]"

definition example_merged :: string where
  "example_merged = ''def f(x):\<newline>    \"\"\"\<newline>    Return x.\<newline>    \"\"\"\<newline>    return x''"

definition plain_source :: string where
  "plain_source = ''x = 1\<newline>y = x''"

subsection \<open>Concrete validation inputs\<close>

text \<open>The attributes \<open>__init__\<close> of the validator sets.\<close>

definition DocstringValidator :: validator where
  "DocstringValidator = \<lparr>self_errors = [], self_warnings = [], compliant_count = 0\<rparr>"



text \<open>A documented module with one undocumented function; the module docstring contains
  the word \<open>def\<close> followed by a blank. The tree is what \<open>ast.parse\<close> returns for the
  text (module; docstring expression and its constant; the function with its arguments
  and its return statement), and the issue is the one pydocstyle reports.\<close>

definition keyword_source :: string where
  "keyword_source =
     ''\"\"\"Helpers for the def keyword.\"\"\"\<newline>\<newline>\<newline>def f(x):\<newline>    return x''"

definition keyword_tree :: ast_node where
  "keyword_tree =
     Node Other
       [Node Other [Node Other []],
        Node (FunctionDef \<lparr>fd_name = ''f'', fd_args = [(''x'', None)], fd_returns = None,
                            fd_lineno = 4, fd_docstring = None, fd_body_end = Some 5\<rparr>)
          [Node Other [Node Other []],
           Node Other [Node Other [Node Other []]]]]"

definition keyword_env :: val_env where
  "keyword_env =
     \<lparr>write_temp = (\<lambda>src. None),
      check = (\<lambda>src. Inr [\<lparr>issue_code = ''D103'', issue_message = ''Missing docstring in public function'',
                              issue_line = 4, issue_definition = Some ''in public function `f`''\<rparr>])\<rparr>"

text \<open>An environment whose rule engine raises.\<close>

definition failing_env :: val_env where
  "failing_env =
     \<lparr>write_temp = (\<lambda>src. None), check = (\<lambda>src. Inl (Exception ''invalid syntax''))\<rparr>"

subsection \<open>Reference: document order\<close>

text \<open>The nodes of a tree in document order: a node, then its subtrees from first to last
  child. \<open>document_order\<close> is the extraction loop run over the nodes in that order.\<close>

fun preorder :: "ast_node \<Rightarrow> ast_node list" where
  "preorder (Node c cs) = Node c cs # concat (map preorder cs)"

definition document_order :: "ast_node \<Rightarrow> string \<Rightarrow> function_info list" where
  "document_order tree source_code = extract_loop (preorder tree) source_code []"

text \<open>A function with a nested function, followed by a second top-level function, and the
  tree \<open>ast.parse\<close> returns for the text.\<close>

definition nested_source :: string where
  "nested_source =
     ''def a():\<newline>    def b():\<newline>        pass\<newline>    return b\<newline>\<newline>\<newline>def c():\<newline>    pass''"

definition nested_tree :: ast_node where
  "nested_tree =
     Node Other
       [Node (FunctionDef \<lparr>fd_name = ''a'', fd_args = [], fd_returns = None, fd_lineno = 1,
                            fd_docstring = None, fd_body_end = Some 4\<rparr>)
          [Node Other [],
           Node (FunctionDef \<lparr>fd_name = ''b'', fd_args = [], fd_returns = None, fd_lineno = 2,
                                fd_docstring = None, fd_body_end = Some 3\<rparr>)
             [Node Other [], Node Other []],
           Node Other [Node Other [Node Other []]]],
        Node (FunctionDef \<lparr>fd_name = ''c'', fd_args = [], fd_returns = None, fd_lineno = 7,
                            fd_docstring = None, fd_body_end = Some 8\<rparr>)
          [Node Other [], Node Other []]]"

text \<open>The records one node contributes to the extraction.\<close>

fun def_records :: "ast_node \<Rightarrow> string \<Rightarrow> function_info list" where
  "def_records (Node (FunctionDef fd) cs) source_code = [get_function_info fd source_code]"
| "def_records n source_code = []"

section \<open>The response interpreter never raises\<close>

lemma parse_try_Inr: "\<exists>r d. parse_try t = Inr r \<and> docstring r = Some d"
  by (auto simp: parse_try_def Let_def py_index_def empty_result_def)

lemma parse_response_Inr: "\<exists>r d. parse_response t = Inr r \<and> docstring r = Some d"
proof -
  obtain r d where "parse_try t = Inr r" and "docstring r = Some d"
    using parse_try_Inr by blast
  then show ?thesis by (simp add: parse_response_def)
qed

text \<open>The scenario of the specification, and the empty response.\<close>

lemma parse_response_scenario:
  "parse_response ''DOCSTRING:\<newline>Hello.\<newline>\<newline>FIXED_CODE:\<newline>No fixes needed\<newline>\<newline>ERRORS_FOUND:\<newline>None''
     = Inr \<lparr>docstring = Some ''Hello.'', fixed_code = None, errors = [], status = None\<rparr>"
  by code_simp

lemma parse_response_empty:
  "parse_response '''' = Inr \<lparr>docstring = Some '''', fixed_code = None, errors = [], status = None\<rparr>"
  by code_simp

lemma parse_response_garbage:
  "parse_response ''  ?? ERRORS_FOUND: FIXED_CODE: ``` ''
     = Inr \<lparr>docstring = Some ''?? ERRORS_FOUND:'', fixed_code = None, errors = [], status = None\<rparr>"
  by code_simp

text \<open>
  C7. For every response text (the empty text, garbage, text without the section markers
  included) \<open>_parse_response\<close> returns a result, never an exception, and the
  \<open>docstring\<close> field of the result holds a string, never \<open>None\<close>.
\<close>

theorem parse_response_never_raises:
  "\<exists>r d. parse_response response_text = Inr r \<and> docstring r = Some d"
  by (rule parse_response_Inr)

section \<open>Status of a generation result\<close>

text \<open>
  C1. Without a credential the generator has no model, and \<open>generate_docstring\<close>
  returns at once with the fixed message and without a network call (the world is
  unchanged). The dict it returns has no \<open>status\<close> key: the field is \<open>None\<close>, not
  \<open>Some Error\<close> as on the path of a failed remote call.
\<close>

theorem generate_docstring_no_key:
  "generate_docstring (DocstringGenerator None None svc) f style w =
     (\<lparr>docstring = Some ''Error: No API key configured'', fixed_code = None,
       errors = [''API key not set''], status = None\<rparr>, w)"
  by (simp add: generate_docstring_def DocstringGenerator_def no_key_result_def)

text \<open>
  C2. The status of the result of \<open>generate_docstring\<close>, on every path: absent when no
  model is configured (whether or not the unit has documentation), \<open>existing\<close> when a
  model is configured and the unit has documentation, and otherwise \<open>error\<close> when the
  remote call raises and \<open>generated\<close> when it returns.
\<close>

theorem generate_docstring_status:
  "status (fst (generate_docstring g f style w)) =
     (case model g of
        None \<Rightarrow> None
      | Some svc \<Rightarrow>
          if truthy (existing_docstring f) then Some Existing
          else (case svc w (create_prompt g f style) of
                  Inl e \<Rightarrow> Some Error
                | Inr resp \<Rightarrow> Some Generated))"
proof (cases "model g")
  case None
  then show ?thesis by (simp add: generate_docstring_def no_key_result_def)
next
  case (Some svc)
  show ?thesis
  proof (cases "svc w (create_prompt g f style)")
    case (Inl e)
    with Some show ?thesis
      by (simp add: generate_docstring_def error_result_def Let_def)
  next
    case (Inr resp)
    obtain r d where "parse_response resp = Inr r"
      using parse_response_Inr by blast
    with Some Inr show ?thesis
      by (simp add: generate_docstring_def Let_def)
  qed
qed

text \<open>The network is used exactly when a model is configured and the unit has no
  documentation; then exactly one prompt is sent.\<close>

lemma generate_docstring_net:
  "snd (generate_docstring g f style w) =
     (if model g \<noteq> None \<and> \<not> truthy (existing_docstring f)
      then w @ [create_prompt g f style] else w)"
  by (auto simp: generate_docstring_def Let_def split: option.splits sum.splits)

section \<open>The prompt builder is pure\<close>

text \<open>
  C9. The request text depends on the unit record and the style only: two invocations
  of \<open>_create_prompt\<close> with the same unit and style, on whatever generator objects,
  give the same text.
\<close>

theorem create_prompt_pure:
  "create_prompt self1 function_info style = create_prompt self2 function_info style"
  by (simp add: create_prompt_def)

section \<open>Splitting and joining lines\<close>

lemma split_from_nonempty: "split_from sep acc s \<noteq> []"
  by (induction sep acc s rule: split_from.induct) auto

lemma py_join_Cons: "rest \<noteq> [] \<Longrightarrow> py_join sep (a # rest) = a @ sep @ py_join sep rest"
  by (cases rest) auto

lemma prefix_drop_eq:
  assumes "sep \<noteq> []" and "prefix sep (x # xs)"
  shows "x # xs = sep @ drop (length sep - 1) xs"
proof -
  obtain zs where zs: "x # xs = sep @ zs"
    using assms(2) by (auto simp: prefix_def)
  obtain c cs where sep: "sep = c # cs"
    using assms(1) by (cases sep) auto
  from zs sep have "xs = cs @ zs" by simp
  then have "drop (length sep - 1) xs = zs" by (simp add: sep)
  with zs show ?thesis by simp
qed

lemma split_from_match:
  "sep \<noteq> [] \<and> prefix sep (x # xs) \<Longrightarrow>
   split_from sep acc (x # xs) = rev acc # split_from sep [] (drop (length sep - 1) xs)"
  by (subst split_from.simps) simp

lemma split_from_skip:
  "\<not> (sep \<noteq> [] \<and> prefix sep (x # xs)) \<Longrightarrow>
   split_from sep acc (x # xs) = split_from sep (x # acc) xs"
  by (subst split_from.simps) auto

lemma join_split_from: "py_join sep (split_from sep acc s) = rev acc @ s"
proof (induction sep acc s rule: split_from.induct)
  case (1 sep acc)
  show ?case by simp
next
  case (2 sep acc x xs)
  show ?case
  proof (cases "sep \<noteq> [] \<and> prefix sep (x # xs)")
    case True
    have eq: "x # xs = sep @ drop (length sep - 1) xs"
      by (rule prefix_drop_eq) (simp_all add: True)
    have unf: "split_from sep acc (x # xs) = rev acc # split_from sep [] (drop (length sep - 1) xs)"
      using True by (rule split_from_match)
    have ih: "py_join sep (split_from sep [] (drop (length sep - 1) xs)) = drop (length sep - 1) xs"
      using "2.IH"(1)[OF True] by simp
    have "py_join sep (split_from sep acc (x # xs)) =
            rev acc @ sep @ py_join sep (split_from sep [] (drop (length sep - 1) xs))"
      unfolding unf by (rule py_join_Cons) (rule split_from_nonempty)
    also have "\<dots> = rev acc @ sep @ drop (length sep - 1) xs"
      unfolding ih ..
    also have "\<dots> = rev acc @ (x # xs)"
      using eq by metis
    finally show ?thesis .
  next
    case False
    have unf: "split_from sep acc (x # xs) = split_from sep (x # acc) xs"
      using False by (rule split_from_skip)
    have "py_join sep (split_from sep (x # acc) xs) = rev (x # acc) @ xs"
      using "2.IH"(2)[OF False] .
    then show ?thesis unfolding unf by simp
  qed
qed

lemma join_split: "py_join sep (py_split s sep) = s"
  by (simp add: py_split_def join_split_from)

lemma split_from_char_free:
  "c \<notin> set l \<Longrightarrow> split_from [c] acc (l @ s) = split_from [c] (rev l @ acc) s"
  by (induction l arbitrary: acc) auto

lemma split_from_line: "c \<notin> set l \<Longrightarrow> split_from [c] acc l = [rev acc @ l]"
  using split_from_char_free[of c l acc "[]"] by simp

lemma split_from_line_sep:
  "c \<notin> set l \<Longrightarrow> split_from [c] acc (l @ c # s) = (rev acc @ l) # split_from [c] [] s"
  using split_from_char_free[of c l acc "c # s"] by simp

lemma split_join:
  assumes "xs \<noteq> []" and "\<forall>l \<in> set xs. c \<notin> set l"
  shows "py_split (py_join [c] xs) [c] = xs"
  using assms
proof (induction xs)
  case Nil
  then show ?case by simp
next
  case (Cons x xs)
  show ?case
  proof (cases "xs = []")
    case True
    with Cons.prems show ?thesis by (simp add: py_split_def split_from_line)
  next
    case False
    have x: "c \<notin> set x" using Cons.prems by simp
    have "py_split (py_join [c] (x # xs)) [c] = split_from [c] [] (x @ c # py_join [c] xs)"
      using False by (simp add: py_split_def py_join_Cons)
    also have "\<dots> = x # py_split (py_join [c] xs) [c]"
      using split_from_line_sep[OF x, of "[]"] by (simp add: py_split_def)
    also have "\<dots> = x # xs"
      using Cons.IH False Cons.prems by simp
    finally show ?thesis .
  qed
qed

lemma split_from_lines_free:
  "c \<notin> set acc \<Longrightarrow> l \<in> set (split_from [c] acc s) \<Longrightarrow> c \<notin> set l"
  by (induction "[c]" acc s arbitrary: l rule: split_from.induct) (auto split: if_splits)

lemma py_split_lines_free: "l \<in> set (py_split s [c]) \<Longrightarrow> c \<notin> set l"
  unfolding py_split_def using split_from_lines_free[of c "[]"] by simp

lemma py_in_suffix: "prefix sub t \<Longrightarrow> py_in sub (a @ t)"
proof (induction a)
  case Nil
  then show ?case by (cases t) auto
next
  case (Cons x a)
  then show ?case by simp
qed

lemma prefix_rstrip: "prefix (py_rstrip t) t"
proof -
  have "rev t = takeWhile py_isspace (rev t) @ dropWhile py_isspace (rev t)" by simp
  then have "t = rev (dropWhile py_isspace (rev t)) @ rev (takeWhile py_isspace (rev t))"
    by (metis rev_append rev_rev_ident)
  then show ?thesis unfolding py_rstrip_def by (metis prefixI)
qed

lemma py_in_strip:
  assumes "startswith (py_strip ln) sub"
  shows "py_in sub ln"
proof -
  have "prefix sub (py_rstrip (py_lstrip ln))"
    using assms by (simp add: startswith_def py_strip_def)
  then have "prefix sub (py_lstrip ln)"
    using prefix_rstrip prefix_order.trans by blast
  then have "py_in sub (takeWhile py_isspace ln @ py_lstrip ln)"
    by (rule py_in_suffix)
  then show ?thesis by (simp add: py_lstrip_def)
qed

lemma split_from_two:
  "sep \<noteq> [] \<Longrightarrow> py_in sep s \<Longrightarrow> 2 \<le> length (split_from sep acc s)"
proof (induction sep acc s rule: split_from.induct)
  case (1 sep acc)
  then show ?case by simp
next
  case (2 sep acc x xs)
  show ?case
  proof (cases "prefix sep (x # xs)")
    case True
    have "split_from sep [] (drop (length sep - 1) xs) \<noteq> []" by (rule split_from_nonempty)
    then have "1 \<le> length (split_from sep [] (drop (length sep - 1) xs))"
      by (cases "split_from sep [] (drop (length sep - 1) xs)") auto
    with True 2(3) show ?thesis by simp
  next
    case False
    with 2 show ?thesis by simp
  qed
qed

section \<open>The batch and its result mapping\<close>

lemma dict_set_keys:
  "map fst (dict_set d k v) = (if k \<in> set (map fst d) then map fst d else map fst d @ [k])"
  by (induction d) (force simp: image_iff)+

lemma dict_set_map_of: "map_of (dict_set d k v) = (map_of d)(k \<mapsto> v)"
  by (induction d) (auto simp: fun_eq_iff)

lemma dict_set_distinct: "distinct (map fst d) \<Longrightarrow> distinct (map fst (dict_set d k v))"
  by (simp add: dict_set_keys)

lemma dict_set_dom: "fst ` set (dict_set d k v) = insert k (fst ` set d)"
proof -
  have "set (map fst (dict_set d k v)) = insert k (set (map fst d))"
    by (auto simp: dict_set_keys)
  then show ?thesis by simp
qed

lemma batch_loop_dom:
  "fst ` set (results (batch_loop g style cb tot i fs st)) = fst ` set (results st) \<union> name ` set fs"
  by (induction fs arbitrary: i st) (simp_all add: case_prod_beta dict_set_dom Un_commute insert_commute)

lemma batch_loop_distinct:
  "distinct (map fst (results st)) \<Longrightarrow>
   distinct (map fst (results (batch_loop g style cb tot i fs st)))"
  by (induction fs arbitrary: i st) (simp_all add: case_prod_beta dict_set_distinct)

lemma batch_loop_map_of:
  "map_of (results (batch_loop g style cb tot i fs st)) =
     map_of (results st) ++ map_of (rev (sequential_results g style fs (net st)))"
proof (induction fs arbitrary: i st)
  case Nil
  show ?case by simp
next
  case (Cons f fs)
  show ?case
    by (auto simp: Cons.IH dict_set_map_of case_prod_beta fun_eq_iff map_add_def
             split: option.splits)
qed

lemma batch_loop_net:
  "net (batch_loop g style cb tot i fs st) = sequential_net g style fs (net st)"
  by (induction fs arbitrary: i st) (simp_all add: case_prod_beta)

lemma batch_loop_progress:
  "progress (batch_loop g style cb tot i fs st) =
     (if cb then progress st @ map (\<lambda>j. (j + 1, tot)) [i..<i + length fs] else progress st)"
proof (induction fs arbitrary: i st)
  case Nil
  show ?case by simp
next
  case (Cons f fs)
  have "[i..<Suc (i + length fs)] = i # [Suc i..<Suc (i + length fs)]"
    using upt_conv_Cons[of i "Suc (i + length fs)"] by simp
  then show ?case
    by (simp add: Cons.IH case_prod_beta)
qed

lemma generate_batch_length:
  "length (results (generate_batch g fs style cb w)) = card (name ` set fs)"
proof -
  let ?ks = "map fst (results (generate_batch g fs style cb w))"
  have d: "distinct ?ks"
    unfolding generate_batch_def by (rule batch_loop_distinct) simp
  have "set ?ks = name ` set fs"
    unfolding generate_batch_def using batch_loop_dom[of g style cb "length fs" 0 fs] by simp
  then have "card (name ` set fs) = length ?ks"
    using d distinct_card by metis
  then show ?thesis by simp
qed

text \<open>
  C8. The result mapping of \<open>generate_batch\<close> has at most as many entries as there are
  input units, and exactly as many iff no two units share a name; it maps each name to
  the result of the last unit of that name, the units being run one after the other in
  input order (each call starts in the world the previous one left), and the callback,
  when supplied, is called with 1, 2, \<dots> and the number of units.
\<close>

theorem generate_batch_mapping:
  "length (results (generate_batch g fs style cb w)) \<le> length fs
   \<and> (length (results (generate_batch g fs style cb w)) = length fs) = distinct (map name fs)
   \<and> map_of (results (generate_batch g fs style cb w)) = map_of (rev (sequential_results g style fs w))
   \<and> net (generate_batch g fs style cb w) = sequential_net g style fs w
   \<and> progress (generate_batch g fs style cb w) =
        (if cb then map (\<lambda>i. (i + 1, length fs)) [0..<length fs] else [])"
proof -
  have c: "card (name ` set fs) = card (set (map name fs))" by simp
  have le: "card (set (map name fs)) \<le> length (map name fs)" by (rule card_length)
  have eq: "(card (set (map name fs)) = length (map name fs)) = distinct (map name fs)"
    using card_distinct distinct_card by blast
  show ?thesis
    using le eq
    by (simp add: generate_batch_length c del: set_map)
       (simp add: generate_batch_def batch_loop_map_of batch_loop_net batch_loop_progress)
qed

text \<open>The result stored under a name is that of the last unit with that name.\<close>

lemma sequential_results_append:
  "sequential_results g style (xs @ ys) w =
     sequential_results g style xs w @ sequential_results g style ys (sequential_net g style xs w)"
  by (induction xs arbitrary: w) auto

lemma sequential_results_keys: "map fst (sequential_results g style fs w) = map name fs"
  by (induction fs arbitrary: w) auto

lemma generate_batch_last_wins:
  assumes "name f \<notin> name ` set ys"
  shows "map_of (results (generate_batch g (xs @ f # ys) style cb w)) (name f) =
           Some (fst (generate_docstring g f style (sequential_net g style xs w)))"
proof -
  let ?w = "sequential_net g style xs w"
  let ?tail = "sequential_results g style ys (snd (generate_docstring g f style ?w))"
  have "name f \<notin> fst ` set (rev ?tail)"
    using assms sequential_results_keys[of g style ys] by (metis set_map set_rev)
  then have "map_of (rev ?tail) (name f) = None"
    by (simp add: map_of_eq_None_iff)
  then show ?thesis
    by (simp add: generate_batch_def batch_loop_map_of sequential_results_append map_add_def)
qed

section \<open>Splicing is insertion only\<close>

lemma def_name_Inr:
  assumes "startswith (py_strip ln) ''def ''"
  shows "\<exists>n. def_name ln = Inr n"
proof -
  have "py_in ''def '' ln" using assms by (rule py_in_strip)
  then have "2 \<le> length (py_split ln ''def '')"
    unfolding py_split_def by (intro split_from_two) simp_all
  then have 1: "py_index (py_split ln ''def '') 1 = Inr (py_split ln ''def '' ! 1)"
    by (simp add: py_index_def)
  have "py_split (py_split ln ''def '' ! 1) ''('' \<noteq> []"
    unfolding py_split_def by (rule split_from_nonempty)
  then have 2: "py_index (py_split (py_split ln ''def '' ! 1) ''('') 0
                  = Inr (py_split (py_split ln ''def '' ! 1) ''('' ! 0)"
    by (simp add: py_index_def)
  show ?thesis unfolding def_name_def using 1 2 by simp
qed

lemma doc_block_Inr: "\<exists>blk. doc_block ds ln = Inr blk"
proof (cases "startswith (py_strip ln) ''def ''")
  case True
  then obtain n where "def_name ln = Inr n" using def_name_Inr by blast
  with True show ?thesis
    by (simp add: doc_block_def Let_def split: option.splits)
next
  case False
  then show ?thesis by (simp add: doc_block_def)
qed

lemma doc_block_spliced: "doc_block ds ln = Inr (spliced_lines ds ln)"
  using doc_block_Inr[of ds ln] by (auto simp: spliced_lines_def)

lemma spliced_lines_match: "(spliced_lines ds ln \<noteq> []) = def_match ds ln"
proof (cases "startswith (py_strip ln) ''def ''")
  case True
  then obtain n where "def_name ln = Inr n" using def_name_Inr by blast
  with True show ?thesis
    by (simp add: spliced_lines_def doc_block_def def_match_def Let_def split: option.splits)
next
  case False
  then show ?thesis by (simp add: spliced_lines_def doc_block_def def_match_def)
qed

lemma spliced_lines_shape:
  assumes "def_match ds ln"
  shows "\<exists>d. d \<noteq> [] \<and> spliced_lines ds ln =
           (indent_str ln @ ''\"\"\"'')
             # map (\<lambda>doc_line. indent_str ln @ doc_line) (py_split d ''\<newline>'')
             @ [indent_str ln @ ''\"\"\"'']"
proof -
  have sw: "startswith (py_strip ln) ''def ''" using assms by (simp add: def_match_def)
  then obtain n where n: "def_name ln = Inr n" using def_name_Inr by blast
  with assms obtain r where r: "map_of ds n = Some r" and t: "truthy (docstring r)"
    by (auto simp: def_match_def split: option.splits)
  from t obtain d where d: "docstring r = Some d" "d \<noteq> []"
    by (cases "docstring r") auto
  have "spliced_lines ds ln =
          (indent_str ln @ ''\"\"\"'')
            # map (\<lambda>doc_line. indent_str ln @ doc_line) (py_split d ''\<newline>'')
            @ [indent_str ln @ ''\"\"\"'']"
    using sw n r d by (simp add: spliced_lines_def doc_block_def Let_def indent_str_def)
  with d(2) show ?thesis by blast
qed

lemma spliced_lines_newline_free:
  assumes "b \<in> set (spliced_lines ds ln)"
  shows "CHR ''\<newline>'' \<notin> set b"
proof (cases "def_match ds ln")
  case True
  then obtain d where
    s: "spliced_lines ds ln =
          (indent_str ln @ ''\"\"\"'')
            # map (\<lambda>doc_line. indent_str ln @ doc_line) (py_split d ''\<newline>'')
            @ [indent_str ln @ ''\"\"\"'']"
    using spliced_lines_shape by blast
  have i: "CHR ''\<newline>'' \<notin> set (indent_str ln)" by (simp add: indent_str_def)
  have l: "\<And>x. x \<in> set (py_split d ''\<newline>'') \<Longrightarrow> CHR ''\<newline>'' \<notin> set x"
    by (rule py_split_lines_free)
  show ?thesis using assms i l unfolding s by auto
next
  case False
  then have "spliced_lines ds ln = []" using spliced_lines_match by blast
  with assms show ?thesis by simp
qed

lemma insert_loop_eq:
  "insert_loop ds lns acc = Inr (acc @ concat (map (\<lambda>ln. ln # spliced_lines ds ln) lns))"
  by (induction lns arbitrary: acc) (simp_all add: doc_block_spliced)

lemma insert_docstrings_eq:
  "insert_docstrings source_code ds =
     Inr (py_join ''\<newline>''
            (concat (map (\<lambda>ln. ln # spliced_lines ds ln) (py_split source_code ''\<newline>''))))"
  by (simp add: insert_docstrings_def insert_loop_eq)

lemma subseq_interleave: "subseq lns (concat (map (\<lambda>ln. ln # f ln) lns))"
  by (induction lns) (auto intro: list_emb_append2)

lemma concat_no_splice:
  "\<forall>ln \<in> set lns. f ln = [] \<Longrightarrow> concat (map (\<lambda>ln. ln # f ln) lns) = lns"
  by (induction lns) auto

lemma merged_lines:
  "py_split (py_join ''\<newline>''
       (concat (map (\<lambda>ln. ln # spliced_lines ds ln) (py_split source_code ''\<newline>''))))
     ''\<newline>''
   = concat (map (\<lambda>ln. ln # spliced_lines ds ln) (py_split source_code ''\<newline>''))"
proof (rule split_join)
  have "py_split source_code ''\<newline>'' \<noteq> []"
    unfolding py_split_def by (rule split_from_nonempty)
  then show "concat (map (\<lambda>ln. ln # spliced_lines ds ln) (py_split source_code ''\<newline>'')) \<noteq> []"
    by (cases "py_split source_code ''\<newline>''") auto
next
  show "\<forall>l\<in>set (concat (map (\<lambda>ln. ln # spliced_lines ds ln) (py_split source_code ''\<newline>''))).
          CHR ''\<newline>'' \<notin> set l"
    using py_split_lines_free spliced_lines_newline_free by auto
qed

text \<open>
  C10. \<open>_insert_docstrings\<close> never raises; the lines of the merged source are the lines
  of the original, each followed by the lines spliced after it, so every original line is
  kept unchanged and in order; lines are spliced after a line exactly when its stripped
  text starts with \<open>def\<close> and a blank and its extracted name is a key of the mapping with
  a non-empty docstring, and they are then the indented block between two indented
  triple-quote lines; when no line matches, the output is the input.
\<close>

theorem insert_docstrings_insertion_only:
  "\<exists>merged. insert_docstrings source_code ds = Inr merged
     \<and> py_split merged ''\<newline>'' =
         concat (map (\<lambda>ln. ln # spliced_lines ds ln) (py_split source_code ''\<newline>''))
     \<and> subseq (py_split source_code ''\<newline>'') (py_split merged ''\<newline>'')
     \<and> (\<forall>ln. (spliced_lines ds ln \<noteq> []) = def_match ds ln)
     \<and> (\<forall>ln. def_match ds ln \<longrightarrow>
           (\<exists>d. d \<noteq> [] \<and> spliced_lines ds ln =
              (indent_str ln @ ''\"\"\"'')
                # map (\<lambda>doc_line. indent_str ln @ doc_line) (py_split d ''\<newline>'')
                @ [indent_str ln @ ''\"\"\"'']))
     \<and> ((\<forall>ln \<in> set (py_split source_code ''\<newline>''). \<not> def_match ds ln)
           \<longrightarrow> merged = source_code)"
proof -
  let ?lines = "py_split source_code ''\<newline>''"
  let ?out = "concat (map (\<lambda>ln. ln # spliced_lines ds ln) ?lines)"
  let ?merged = "py_join ''\<newline>'' ?out"
  have 1: "insert_docstrings source_code ds = Inr ?merged" by (rule insert_docstrings_eq)
  have 2: "py_split ?merged ''\<newline>'' = ?out" by (rule merged_lines)
  have 3: "subseq ?lines (py_split ?merged ''\<newline>'')"
    unfolding 2 by (rule subseq_interleave)
  have 4: "\<forall>ln. (spliced_lines ds ln \<noteq> []) = def_match ds ln"
    using spliced_lines_match by blast
  have 5: "\<forall>ln. def_match ds ln \<longrightarrow>
           (\<exists>d. d \<noteq> [] \<and> spliced_lines ds ln =
              (indent_str ln @ ''\"\"\"'')
                # map (\<lambda>doc_line. indent_str ln @ doc_line) (py_split d ''\<newline>'')
                @ [indent_str ln @ ''\"\"\"''])"
    using spliced_lines_shape by blast
  have 6: "(\<forall>ln \<in> set ?lines. \<not> def_match ds ln) \<longrightarrow> ?merged = source_code"
  proof
    assume "\<forall>ln \<in> set ?lines. \<not> def_match ds ln"
    then have "\<forall>ln \<in> set ?lines. spliced_lines ds ln = []"
      using spliced_lines_match by blast
    then have "?out = ?lines" by (rule concat_no_splice)
    then show "?merged = source_code" by (simp add: join_split)
  qed
  show ?thesis using 1 2 3 4 5 6 by blast
qed

lemma example_merged_eval: "insert_docstrings example_source example_docstrings = Inr example_merged"
  by code_simp

lemma plain_source_lines: "py_split plain_source ''\<newline>'' = [''x = 1'', ''y = x'']"
  by code_simp

lemma plain_source_no_match:
  "\<not> def_match example_docstrings ''x = 1'' \<and> \<not> def_match example_docstrings ''y = x''"
  by code_simp

lemma example_def_match: "def_match example_docstrings ''def f(x):''"
  by code_simp

theorem insert_docstrings_insertion_only_witness:
  "insert_docstrings example_source example_docstrings = Inr example_merged
   \<and> subseq (py_split example_source ''\<newline>'') (py_split example_merged ''\<newline>'')
   \<and> spliced_lines example_docstrings ''def f(x):'' \<noteq> []
   \<and> insert_docstrings plain_source example_docstrings = Inr plain_source"
proof -
  obtain m where m: "insert_docstrings example_source example_docstrings = Inr m"
      and s: "subseq (py_split example_source ''\<newline>'') (py_split m ''\<newline>'')"
      and sp: "\<forall>ln. (spliced_lines example_docstrings ln \<noteq> []) = def_match example_docstrings ln"
    using insert_docstrings_insertion_only[of example_source example_docstrings] by blast
  obtain p where p: "insert_docstrings plain_source example_docstrings = Inr p"
      and q: "(\<forall>ln \<in> set (py_split plain_source ''\<newline>''). \<not> def_match example_docstrings ln)
                \<longrightarrow> p = plain_source"
    using insert_docstrings_insertion_only[of plain_source example_docstrings] by blast
  have "p = plain_source"
    using q plain_source_no_match by (simp add: plain_source_lines)
  moreover have "m = example_merged" using m example_merged_eval by simp
  ultimately show ?thesis
    using m s p sp example_def_match by simp
qed

section \<open>Validation: categories, summary and compliance\<close>

lemma merged_source_Inr: "\<exists>m. merged_source source_code gd = Inr m"
  by (simp add: merged_source_def insert_docstrings_eq split: option.splits)

lemma categorize_eq:
  "categorize issues errs warns =
     (errs @ map issue_dict (filter (\<lambda>i. issue_code i \<in> set missing_doc_codes) issues),
      warns @ map issue_dict (filter (\<lambda>i. issue_code i \<notin> set missing_doc_codes) issues))"
  by (induction issues arbitrary: errs warns) simp_all

lemma validate_code_write_fails:
  assumes "merged_source source_code gd = Inr m" and "write_temp env m = Some e"
  shows "validate_code self env source_code gd = (failure_result e, self)"
  using assms by (simp add: validate_code_def validate_try_def)

lemma validate_code_check_fails:
  assumes "merged_source source_code gd = Inr m" and "write_temp env m = None"
    and "check env m = Inl e"
  shows "validate_code self env source_code gd = (failure_result e, self)"
  using assms by (simp add: validate_code_def validate_try_def)

lemma validate_code_success:
  assumes "merged_source source_code gd = Inr m" and "write_temp env m = None"
    and "check env m = Inr issues"
  shows "fst (validate_code self env source_code gd) =
     \<lparr>r_errors = map issue_dict (filter (\<lambda>i. issue_code i \<in> set missing_doc_codes) issues),
      r_warnings = map issue_dict (filter (\<lambda>i. issue_code i \<notin> set missing_doc_codes) issues),
      r_compliant = max 0 (int (py_count m ''def '')
                     - int (length (filter (\<lambda>i. issue_code i \<in> set missing_doc_codes) issues))),
      r_total_issues = length (filter (\<lambda>i. issue_code i \<in> set missing_doc_codes) issues)
                     + length (filter (\<lambda>i. issue_code i \<notin> set missing_doc_codes) issues),
      r_summary =
        \<lparr>s_compliant = max 0 (int (py_count m ''def '')
                     - int (length (filter (\<lambda>i. issue_code i \<in> set missing_doc_codes) issues))),
         s_warnings = length (filter (\<lambda>i. issue_code i \<notin> set missing_doc_codes) issues),
         s_errors = length (filter (\<lambda>i. issue_code i \<in> set missing_doc_codes) issues)\<rparr>\<rparr>"
  using assms
  by (simp add: validate_code_def validate_try_def categorize_eq format_results_def Let_def)

lemma validate_code_cases:
  assumes "merged_source source_code gd = Inr m"
  shows "(\<exists>e. fst (validate_code self env source_code gd) = failure_result e
              \<and> (write_temp env m = Some e \<or> write_temp env m = None \<and> check env m = Inl e))
       \<or> (\<exists>issues. write_temp env m = None \<and> check env m = Inr issues)"
proof (cases "write_temp env m")
  case (Some e)
  then show ?thesis using validate_code_write_fails[OF assms Some] by auto
next
  case None
  show ?thesis
  proof (cases "check env m")
    case (Inl e)
    then show ?thesis using validate_code_check_fails[OF assms None Inl] None by auto
  next
    case (Inr issues)
    then show ?thesis using None by auto
  qed
qed

text \<open>The severity \<open>get_file_status\<close> writes, and the colour helper, on the codes at
  issue.\<close>

lemma status_severity_error:
  "(status_severity c = ''error'') = (c = ''D100'' \<or> c = ''D101'' \<or> c = ''D102'' \<or> c = ''D103'')"
  by (auto simp: status_severity_def missing_doc_codes_def)

lemma get_severity_color_samples:
  "get_severity_color ''D107'' = ''error'' \<and> get_severity_color ''D400'' = ''error''
   \<and> get_severity_color ''D205'' = ''warning'' \<and> get_severity_color ''ERROR'' = ''error''"
  by code_simp




text \<open>
  C4. On every path the summary's error and warning counts add up to \<open>total_issues\<close>,
  they are the lengths of the two lists, and the compliant count is not negative and is
  the same in the summary. When writing the file or the rule engine raises,
  \<open>validate_code\<close> does not raise: it returns one synthetic finding with the fixed code
  \<open>ERROR\<close> among the errors, no warnings, and a compliant count of 0.
\<close>

theorem validate_code_summary:
  fixes self env source_code gd
  defines "R \<equiv> fst (validate_code self env source_code gd)"
  shows "s_errors (r_summary R) + s_warnings (r_summary R) = r_total_issues R
       \<and> 0 \<le> r_compliant R
       \<and> s_compliant (r_summary R) = r_compliant R
       \<and> s_errors (r_summary R) = length (r_errors R)
       \<and> s_warnings (r_summary R) = length (r_warnings R)
       \<and> (\<forall>m e. merged_source source_code gd = Inr m \<longrightarrow>
             (write_temp env m = Some e \<or> write_temp env m = None \<and> check env m = Inl e) \<longrightarrow>
             R = failure_result e \<and> map code (r_errors R) = [''ERROR''] \<and> r_warnings R = []
             \<and> r_compliant R = 0 \<and> r_total_issues R = 1)"
proof -
  obtain m where m: "merged_source source_code gd = Inr m"
    using merged_source_Inr by blast
  have inv: "s_errors (r_summary R) + s_warnings (r_summary R) = r_total_issues R
       \<and> 0 \<le> r_compliant R
       \<and> s_compliant (r_summary R) = r_compliant R
       \<and> s_errors (r_summary R) = length (r_errors R)
       \<and> s_warnings (r_summary R) = length (r_warnings R)"
    using validate_code_cases[OF m, of self env]
  proof
    assume "\<exists>e. fst (validate_code self env source_code gd) = failure_result e
              \<and> (write_temp env m = Some e \<or> write_temp env m = None \<and> check env m = Inl e)"
    then show ?thesis by (auto simp: R_def failure_result_def)
  next
    assume "\<exists>issues. write_temp env m = None \<and> check env m = Inr issues"
    then obtain issues where "write_temp env m = None" and "check env m = Inr issues"
      by blast
    then show ?thesis
      unfolding R_def by (simp add: validate_code_success[OF m])
  qed
  have fail: "\<forall>m e. merged_source source_code gd = Inr m \<longrightarrow>
             (write_temp env m = Some e \<or> write_temp env m = None \<and> check env m = Inl e) \<longrightarrow>
             R = failure_result e \<and> map code (r_errors R) = [''ERROR''] \<and> r_warnings R = []
             \<and> r_compliant R = 0 \<and> r_total_issues R = 1"
    unfolding R_def
    using validate_code_write_fails validate_code_check_fails
    by (auto simp: failure_result_def)
  show ?thesis using inv fail by blast
qed

theorem validate_code_summary_witness:
  "map code (r_errors (fst (validate_code DocstringValidator failing_env keyword_source None)))
     = [''ERROR'']
   \<and> r_compliant (fst (validate_code DocstringValidator failing_env keyword_source None)) = 0
   \<and> s_errors (r_summary (fst (validate_code DocstringValidator failing_env keyword_source None)))
     + s_warnings (r_summary (fst (validate_code DocstringValidator failing_env keyword_source None)))
     = r_total_issues (fst (validate_code DocstringValidator failing_env keyword_source None))"
proof -
  have 1: "merged_source keyword_source None = Inr keyword_source"
    by (simp add: merged_source_def)
  have 2: "write_temp failing_env keyword_source = None
           \<and> check failing_env keyword_source = Inl (Exception ''invalid syntax'')"
    by (simp add: failing_env_def)
  show ?thesis
    using validate_code_summary[of DocstringValidator failing_env keyword_source None] 1 2
    by blast
qed

text \<open>How \<open>validate_code\<close> arrives at the compliant count: from the number of
  non-overlapping occurrences of the text \<open>def\<close> followed by a blank in the merged source
  (the variable \<open>total_functions\<close>), not from the function definitions; it is 0 when
  writing the file or the rule engine raises.\<close>

lemma validate_code_compliant_count:
  assumes "merged_source source_code gd = Inr m"
  shows "r_compliant (fst (validate_code self env source_code gd)) =
     (case write_temp env m of
        Some e \<Rightarrow> 0
      | None \<Rightarrow>
          (case check env m of
             Inl e \<Rightarrow> 0
           | Inr issues \<Rightarrow>
               max 0 (int (py_count m ''def '')
                      - int (length (r_errors (fst (validate_code self env source_code gd)))))))"
proof (cases "write_temp env m")
  case (Some e)
  then show ?thesis
    using validate_code_write_fails[OF assms Some, of self] by (simp add: failure_result_def)
next
  case None
  show ?thesis
  proof (cases "check env m")
    case (Inl e)
    then show ?thesis
      using validate_code_check_fails[OF assms None Inl, of self] None
      by (simp add: failure_result_def)
  next
    case (Inr issues)
    then show ?thesis
      using validate_code_success[OF assms None Inr, of self] None by simp
  qed
qed

lemma keyword_source_count: "py_count keyword_source ''def '' = 2"
  by code_simp

text \<open>
  C5. The compliant count is meant to be max(0, total_definable_units - error_count).
  For a module with one function, undocumented, whose module docstring mentions \<open>def\<close>,
  the code takes 2 for the number of functions: the extractor finds one unit, there is one
  error-severity finding, and the compliant count comes out as 1 instead of
  max(0, 1 - 1) = 0.
\<close>

theorem compliant_count_overcounts:
  "py_count keyword_source ''def '' = 2
   \<and> length (extract_functions keyword_tree keyword_source) = 1
   \<and> length (r_errors (fst (validate_code DocstringValidator keyword_env keyword_source None))) = 1
   \<and> r_compliant (fst (validate_code DocstringValidator keyword_env keyword_source None)) = 1
   \<and> r_compliant (fst (validate_code DocstringValidator keyword_env keyword_source None))
       \<noteq> max 0 (int (length (extract_functions keyword_tree keyword_source))
                 - int (length (r_errors (fst (validate_code DocstringValidator keyword_env
                                                keyword_source None)))))"
  by code_simp

section \<open>Extraction: one record per function definition, breadth first\<close>

lemma extract_loop_eq:
  "extract_loop ns source_code acc = acc @ concat (map (\<lambda>n. def_records n source_code) ns)"
  by (induction ns source_code acc rule: extract_loop.induct) simp_all

lemma walk_queue_append:
  "walk_queue (xs @ ys) = xs @ walk_queue (ys @ concat (map iter_child_nodes xs))"
  by (induction xs arbitrary: ys) simp_all

lemma walk_queue_levels: "walk_queue q = q @ walk_queue (concat (map iter_child_nodes q))"
  using walk_queue_append[of q "[]"] by simp

lemma preorder_children:
  "concat (map preorder (n # todo)) =
     n # concat (map preorder (iter_child_nodes n)) @ concat (map preorder todo)"
  by (cases n) simp

lemma walk_queue_mset:
  "mset (concat (map f (walk_queue q))) = mset (concat (map f (concat (map preorder q))))"
proof (induction q rule: walk_queue.induct)
  case 1
  show ?case by simp
next
  case (2 n todo)
  have "mset (concat (map f (walk_queue (n # todo)))) =
          mset (f n) + mset (concat (map f (walk_queue (todo @ iter_child_nodes n))))"
    by simp
  also have "\<dots> = mset (f n) + mset (concat (map f (concat (map preorder (todo @ iter_child_nodes n)))))"
    using "2.IH" by simp
  also have "\<dots> = mset (concat (map f (concat (map preorder (n # todo)))))"
    unfolding preorder_children by simp
  finally show ?case .
qed

text \<open>
  C6, as stated, fails on the order: for a function with a nested function followed by a
  second top-level function, the records come out as a, c, b (lines 1, 7, 2), while
  document order is a, b, c.
\<close>

theorem extraction_order_counterexample:
  "map name (extract_functions nested_tree nested_source) = [''a'', ''c'', ''b'']
   \<and> map lineno (extract_functions nested_tree nested_source) = [1, 7, 2]
   \<and> map name (document_order nested_tree nested_source) = [''a'', ''b'', ''c'']
   \<and> extract_functions nested_tree nested_source \<noteq> document_order nested_tree nested_source"
  by code_simp

text \<open>
  C6, amended. Extraction yields exactly one record per \<open>FunctionDef\<close> node of the tree,
  nested ones included: the records are those of document order up to their order. The
  order is breadth first: the records of the nodes of a queue come first, in queue order,
  then those of all their children, and so on level by level; in particular the record of
  the root precedes those of every other node.
\<close>

theorem extract_functions_breadth_first:
  "mset (extract_functions tree source_code) = mset (document_order tree source_code)
   \<and> length (extract_functions tree source_code) = length (document_order tree source_code)
   \<and> extract_functions tree source_code =
       def_records tree source_code
         @ extract_loop (walk_queue (iter_child_nodes tree)) source_code []
   \<and> extract_loop (walk_queue q) source_code [] =
       extract_loop q source_code []
         @ extract_loop (walk_queue (concat (map iter_child_nodes q))) source_code []"
proof -
  let ?f = "\<lambda>n. def_records n source_code"
  have m: "mset (extract_functions tree source_code) = mset (document_order tree source_code)"
    unfolding extract_functions_def document_order_def walk_def extract_loop_eq
    using walk_queue_mset[of ?f "[tree]"] by simp
  have l: "length (extract_functions tree source_code) = length (document_order tree source_code)"
    using m by (metis size_mset)
  have r: "extract_functions tree source_code =
       def_records tree source_code
         @ extract_loop (walk_queue (iter_child_nodes tree)) source_code []"
    unfolding extract_functions_def walk_def extract_loop_eq
    by (subst walk_queue_levels) simp
  have b: "extract_loop (walk_queue q) source_code [] =
       extract_loop q source_code []
         @ extract_loop (walk_queue (concat (map iter_child_nodes q))) source_code []"
    unfolding extract_loop_eq
    by (subst walk_queue_levels) simp
  show ?thesis using m l r b by blast
qed

text \<open>A syntax error gives no units and accuracy 0; otherwise the accuracy is 100.\<close>

lemma parse_code_syntax_error: "ast_parse s = Inl e \<Longrightarrow> parse_code ast_parse s = ([], 0)"
  by (simp add: parse_code_def)

end
